theory Spec2Isabelle
  imports Main
begin

section \<open>Matrix operations (rotateCW, rotateCCW)\<close>

text \<open>
  A piece shape is a \<^verbatim>\<open>number[][]\<close> of 0/1 entries. Both rotations start with
  \<^verbatim>\<open>const h = m.length, w = m[0].length\<close>, which throws a TypeError when the matrix
  has no row; that is the only failure of the two functions and it is the \<open>Inl\<close> result
  here. The result array \<open>r\<close> is allocated as \<open>w\<close> rows of \<open>h\<close> zeros and filled by the
  two nested loops, one cell assignment at a time.
\<close>

datatype error = TypeError

type_synonym matrix = "nat list list"

text \<open>
  \<^verbatim>\<open>m[y][x]\<close> for \<open>y < m.length\<close>. Beyond the end of a (ragged) row JavaScript reads
  \<^verbatim>\<open>undefined\<close>, which every reader of a shape cell treats like 0
  (\<^verbatim>\<open>if (!matrix[y][x]) continue\<close>); the model reads 0 there.
\<close>

definition cellAt :: "matrix \<Rightarrow> nat \<Rightarrow> nat \<Rightarrow> nat" where
  "cellAt m y x = (if y < length m \<and> x < length (m ! y) then m ! y ! x else 0)"

text \<open>\<^verbatim>\<open>r[i][j] = v\<close>; both loops only write inside the allocated \<open>w \<times> h\<close> array.\<close>

definition setCell :: "matrix \<Rightarrow> nat \<Rightarrow> nat \<Rightarrow> nat \<Rightarrow> matrix" where
  "setCell r i j v = r[i := (r ! i)[j := v]]"

definition rotateCW :: "matrix \<Rightarrow> error + matrix" where
  "rotateCW m =
     (case m of
        [] \<Rightarrow> Inl TypeError
      | r0 # _ \<Rightarrow>
          let h = length m; w = length r0;
              r = replicate w (replicate h 0)
          in Inr (fold (\<lambda>y. fold (\<lambda>x r. setCell r x (h - 1 - y) (cellAt m y x)) [0..<w])
                       [0..<h] r))"

definition rotateCCW :: "matrix \<Rightarrow> error + matrix" where
  "rotateCCW m =
     (case m of
        [] \<Rightarrow> Inl TypeError
      | r0 # _ \<Rightarrow>
          let h = length m; w = length r0;
              r = replicate w (replicate h 0)
          in Inr (fold (\<lambda>y. fold (\<lambda>x r. setCell r (w - 1 - x) y (cellAt m y x)) [0..<w])
                       [0..<h] r))"

text \<open>A rectangular matrix of \<open>h\<close> rows and \<open>w\<close> columns.\<close>

definition rect :: "matrix \<Rightarrow> nat \<Rightarrow> nat \<Rightarrow> bool" where
  "rect m h w = (length m = h \<and> list_all (\<lambda>r. length r = w) m)"


section \<open>Data model\<close>

text \<open>
  The types of \<^verbatim>\<open>gameClient.tsx\<close> (and \<^verbatim>\<open>types/index.ts\<close>). The seven piece kinds
  \<^verbatim>\<open>"I" | "J" | "L" | "O" | "S" | "T" | "Z"\<close> are written \<open>KI\<close> \dots \<open>KZ\<close>; the fields
  \<^verbatim>\<open>x\<close>, \<^verbatim>\<open>y\<close> of a \<^verbatim>\<open>Point\<close> are \<open>px\<close>, \<open>py\<close>; the optional fields \<^verbatim>\<open>color\<close> and
  \<^verbatim>\<open>kind\<close> of a \<^verbatim>\<open>Cell\<close> are \<open>ccolor\<close> and \<open>ckind\<close>. JavaScript numbers are integers
  throughout the engine and are modelled as unbounded \<open>int\<close>.
\<close>

datatype Tetromino = KI | KJ | KL | KO | KS | KT | KZ

record Point =
  px :: int
  py :: int

record Cell =
  filled :: bool
  ccolor :: "string option"
  ckind :: "Tetromino option"

type_synonym board = "Cell list list"

record Piece =
  kind :: Tetromino
  matrix :: matrix
  pos :: Point
  color :: string

datatype LastAction = ActNone | ActMove | ActSoft | ActHard | ActRotate

datatype TSpin = TNone | TMini | TFull

datatype ChallengeType = Speed | Reverse | NoChallenge

record Challenge =
  ctype :: ChallengeType
  duration :: int
  startTime :: "int option"

text \<open>
  The two timers that the challenge trigger schedules are recorded, not run: the
  repeating one-second countdown interval (with the challenge it will activate and
  whether this is the first time of its type), and the one-shot timeout that reverts the
  challenge after the given delay in milliseconds.
\<close>

datatype timer = CountdownInterval Challenge bool | ChallengeReset int

text \<open>
  The mutable cells of the component: the \<^verbatim>\<open>useRef\<close> cells keep their names, the
  \<^verbatim>\<open>useState\<close> values are the fields \<open>score\<close> \dots \<open>paused\<close>. Every operation below reads
  the state values as they are when it is called and returns the updated state. Sound
  cues and the \<^verbatim>\<open>localStorage\<close> write of the best score belong to the audio and
  persistence collaborators and are left out.
\<close>

record game =
  boardRef :: board
  curRef :: "Piece option"
  nextRef :: "Tetromino list"
  gravityMsRef :: int
  lastActionRef :: LastAction
  rotatedWithKickRef :: bool
  b2bRef :: bool
  score :: int
  lines :: int
  level :: int
  countdown :: "int option"
  seenChallenges :: "ChallengeType set"
  challenge :: Challenge
  best :: int
  scoreRef :: int
  running :: bool
  paused :: bool
  timers :: "timer list"

definition COLS :: nat where "COLS = 10"

definition ROWS :: nat where "ROWS = 20"

fun COLORS :: "Tetromino \<Rightarrow> string" where
  "COLORS KI = ''#06b6d4''"
| "COLORS KJ = ''#3b82f6''"
| "COLORS KL = ''#f59e0b''"
| "COLORS KO = ''#eab308''"
| "COLORS KS = ''#22c55e''"
| "COLORS KT = ''#a855f7''"
| "COLORS KZ = ''#ef4444''"

fun SHAPES :: "Tetromino \<Rightarrow> matrix" where
  "SHAPES KI = [[0, 0, 0, 0], [1, 1, 1, 1], [0, 0, 0, 0], [0, 0, 0, 0]]"
| "SHAPES KJ = [[1, 0, 0], [1, 1, 1], [0, 0, 0]]"
| "SHAPES KL = [[0, 0, 1], [1, 1, 1], [0, 0, 0]]"
| "SHAPES KO = [[1, 1], [1, 1]]"
| "SHAPES KS = [[0, 1, 1], [1, 1, 0], [0, 0, 0]]"
| "SHAPES KT = [[0, 1, 0], [1, 1, 1], [0, 0, 0]]"
| "SHAPES KZ = [[1, 1, 0], [0, 1, 1], [0, 0, 0]]"

section \<open>Bag randomizer\<close>

text \<open>
  \<^verbatim>\<open>newBag\<close> shuffles the seven kinds with the loop
  \<^verbatim>\<open>for (i = bag.length - 1; i > 0; i--) { j = floor(random() * (i + 1)); swap(i, j) }\<close>.
  The random draws are an input of the model: \<open>rnd i\<close> is the draw made at index \<open>i\<close>,
  reduced into \<open>0..i\<close>.
\<close>

fun shuffle :: "(nat \<Rightarrow> nat) \<Rightarrow> nat \<Rightarrow> 'a list \<Rightarrow> 'a list" where
  "shuffle rnd 0 bag = bag"
| "shuffle rnd (Suc n) bag =
     (let i = Suc n; j = rnd i mod (i + 1)
      in shuffle rnd n (bag[i := bag ! j, j := bag ! i]))"

definition newBag :: "(nat \<Rightarrow> nat) \<Rightarrow> Tetromino list" where
  "newBag rnd = (let bag = [KI, KJ, KL, KO, KS, KT, KZ] in shuffle rnd (length bag - 1) bag)"

section \<open>Board model\<close>

definition emptyCell :: Cell where
  "emptyCell = \<lparr>filled = False, ccolor = None, ckind = None\<rparr>"

definition emptyRow :: "Cell list" where
  "emptyRow = replicate COLS emptyCell"

definition createEmptyBoard :: board where
  "createEmptyBoard = replicate ROWS emptyRow"

text \<open>
  The board is created with \<open>ROWS\<close> rows of \<open>COLS\<close> cells and keeps that shape: a merge
  overwrites cells, and the row scan removes one row and adds one. The operations read
  \<^verbatim>\<open>board[ny][nx]\<close> only after they have checked \<open>0 \<le> ny < ROWS\<close> and \<open>0 \<le> nx < COLS\<close>.
\<close>

definition wf_board :: "board \<Rightarrow> bool" where
  "wf_board b = (length b = ROWS \<and> list_all (\<lambda>r. length r = COLS) b)"

text \<open>
  \<^verbatim>\<open>collides\<close>: the inner loop over the cells of one matrix row, then the loop over the
  rows. \<open>nx\<close> and \<open>ny\<close> are \<^verbatim>\<open>pos.x + x + delta.x\<close> and \<^verbatim>\<open>pos.y + y + delta.y\<close> of the cell
  under the loop index; the tests come in the order of the source.
\<close>

fun collidesRow :: "board \<Rightarrow> int \<Rightarrow> int \<Rightarrow> nat list \<Rightarrow> bool" where
  "collidesRow board nx ny [] = False"
| "collidesRow board nx ny (c # cs) =
     (if c = 0 then collidesRow board (nx + 1) ny cs
      else if ny < 0 then collidesRow board (nx + 1) ny cs
      else if nx < 0 \<or> int COLS \<le> nx \<or> int ROWS \<le> ny then True
      else if filled (board ! nat ny ! nat nx) then True
      else collidesRow board (nx + 1) ny cs)"

fun collidesRows :: "board \<Rightarrow> int \<Rightarrow> int \<Rightarrow> matrix \<Rightarrow> bool" where
  "collidesRows board nx ny [] = False"
| "collidesRows board nx ny (r # rs) =
     (if collidesRow board nx ny r then True else collidesRows board nx (ny + 1) rs)"

definition collides :: "Piece \<Rightarrow> board \<Rightarrow> Point \<Rightarrow> bool" where
  "collides p board delta =
     collidesRows board (px (pos p) + px delta) (py (pos p) + py delta) (matrix p)"

text \<open>
  \<^verbatim>\<open>merge\<close> writes \<^verbatim>\<open>board[by][bx] = {filled: true, color, kind}\<close> for every filled cell
  with \<open>by \<ge> 0\<close>. It is called on the active piece, which does not collide where it
  stands, so every such write is inside the board (lemma \<open>no_collision_in_board\<close>); a
  write outside the board is not modelled and leaves the board as it is.
\<close>

definition writeCell :: "board \<Rightarrow> int \<Rightarrow> int \<Rightarrow> Cell \<Rightarrow> board" where
  "writeCell board by bx c =
     (if 0 \<le> by \<and> nat by < length board \<and> 0 \<le> bx \<and> nat bx < length (board ! nat by)
      then board[nat by := (board ! nat by)[nat bx := c]]
      else board)"

fun mergeRow :: "board \<Rightarrow> int \<Rightarrow> int \<Rightarrow> Cell \<Rightarrow> nat list \<Rightarrow> board" where
  "mergeRow board bx by v [] = board"
| "mergeRow board bx by v (c # cs) =
     (if c = 0 then mergeRow board (bx + 1) by v cs
      else if 0 \<le> by then mergeRow (writeCell board by bx v) (bx + 1) by v cs
      else mergeRow board (bx + 1) by v cs)"

fun mergeRows :: "board \<Rightarrow> int \<Rightarrow> int \<Rightarrow> Cell \<Rightarrow> matrix \<Rightarrow> board" where
  "mergeRows board bx by v [] = board"
| "mergeRows board bx by v (r # rs) = mergeRows (mergeRow board bx by v r) bx (by + 1) v rs"

definition merge :: "Piece \<Rightarrow> game \<Rightarrow> game" where
  "merge p s =
     s\<lparr>boardRef := mergeRows (boardRef s) (px (pos p)) (py (pos p))
                     \<lparr>filled = True, ccolor = Some (color p), ckind = Some (kind p)\<rparr>
                     (matrix p)\<rparr>"

text \<open>\<^verbatim>\<open>isTSpin\<close>: the three-corner rule around the centre \<^verbatim>\<open>pos + (1, 1)\<close>.\<close>

definition blockedCorner :: "board \<Rightarrow> Point \<Rightarrow> bool" where
  "blockedCorner board p =
     (if py p < 0 \<or> px p < 0 \<or> int COLS \<le> px p \<or> int ROWS \<le> py p then True
      else filled (board ! nat (py p) ! nat (px p)))"

definition corners :: "Piece \<Rightarrow> Point list" where
  "corners cur =
     (let c = \<lparr>px = px (pos cur) + 1, py = py (pos cur) + 1\<rparr>
      in [\<lparr>px = px c - 1, py = py c - 1\<rparr>, \<lparr>px = px c + 1, py = py c - 1\<rparr>,
          \<lparr>px = px c - 1, py = py c + 1\<rparr>, \<lparr>px = px c + 1, py = py c + 1\<rparr>])"

definition isTSpin :: "Piece \<Rightarrow> game \<Rightarrow> TSpin" where
  "isTSpin cur s =
     (if kind cur \<noteq> KT then TNone
      else if lastActionRef s \<noteq> ActRotate then TNone
      else
        let blocked = length (filter (blockedCorner (boardRef s)) (corners cur))
        in if 3 \<le> blocked then (if rotatedWithKickRef s then TMini else TFull)
           else TNone)"

definition isPerfectClear :: "board \<Rightarrow> bool" where
  "isPerfectClear board =
     list_all (\<lambda>y. list_all (\<lambda>x. \<not> filled (board ! y ! x)) [0..<COLS]) [0..<ROWS]"

text \<open>
  The row scan of \<^verbatim>\<open>clearLines\<close>:
  \<^verbatim>\<open>for (let y = ROWS - 1; y >= 0; ) if (board[y].every(c => c.filled)) { board.splice(y, 1);
  board.unshift(emptyRow); cleared++ } else y--\<close>. A full row is removed and the same
  index is examined again. Row \<open>y\<close> exists whenever the board has \<open>ROWS\<close> rows; the scan of
  a shorter board, where the source would read a missing row, is not modelled and steps
  over the index.
\<close>

function removeFullRows :: "int \<Rightarrow> board \<Rightarrow> int \<Rightarrow> board \<times> int" where
  "removeFullRows y board cleared =
     (if y < 0 then (board, cleared)
      else if nat y < length board \<and> list_all filled (board ! nat y)
      then removeFullRows y (emptyRow # (take (nat y) board @ drop (Suc (nat y)) board))
             (cleared + 1)
      else removeFullRows (y - 1) board cleared)"
  by pat_completeness auto
termination
proof (relation "measure (\<lambda>(y, board, cleared).
                   nat (y + 1) + length (filter (list_all filled) board))", goal_cases)
  case 1
  show ?case by simp
next
  case (2 y board cleared)
  then have n: "nat y < length board" and f: "list_all filled (board ! nat y)"
    by auto
  have e: "\<not> list_all filled emptyRow"
    by (simp add: emptyRow_def COLS_def emptyCell_def list_all_iff)
  have "filter (list_all filled) board =
        filter (list_all filled) (take (nat y) board @ board ! nat y # drop (Suc (nat y)) board)"
    using id_take_nth_drop[OF n] by simp
  then have "length (filter (list_all filled) board) =
        Suc (length (filter (list_all filled) (take (nat y) board @ drop (Suc (nat y)) board)))"
    using f by simp
  then show ?case using e by simp
next
  case (3 y board cleared)
  then show ?case by simp
qed

declare removeFullRows.simps [simp del]

section \<open>Scoring and progression\<close>

text \<open>The score tables of \<^verbatim>\<open>clearLines\<close>; \<open>lookupOr0 t k\<close> is \<^verbatim>\<open>t[k] ?? 0\<close>.\<close>

definition normalBase :: "int \<rightharpoonup> int" where
  "normalBase = [1 \<mapsto> 100, 2 \<mapsto> 300, 3 \<mapsto> 500, 4 \<mapsto> 800]"

definition tMiniBase :: "int \<rightharpoonup> int" where
  "tMiniBase = [0 \<mapsto> 100, 1 \<mapsto> 200]"

definition tFullBase :: "int \<rightharpoonup> int" where
  "tFullBase = [0 \<mapsto> 400, 2 \<mapsto> 1200, 3 \<mapsto> 1600]"

definition pcBonus :: "int \<rightharpoonup> int" where
  "pcBonus = [1 \<mapsto> 800, 2 \<mapsto> 1200, 3 \<mapsto> 1800, 4 \<mapsto> 2000]"

definition lookupOr0 :: "(int \<rightharpoonup> int) \<Rightarrow> int \<Rightarrow> int" where
  "lookupOr0 t k = (case t k of None \<Rightarrow> 0 | Some v \<Rightarrow> v)"

text \<open>
  \<^verbatim>\<open>Math.round(gained * 1.5)\<close> on an integer: \<^verbatim>\<open>Math.round\<close> rounds a half towards
  \<open>+\<infinity>\<close>, which is \<open>\<lfloor>(3 g + 1) / 2\<rfloor>\<close>.
\<close>

definition roundTimes15 :: "int \<Rightarrow> int" where
  "roundTimes15 g = (3 * g + 1) div 2"

text \<open>
  The points of one clear event and the back-to-back flag it leaves, as
  \<^verbatim>\<open>clearLines\<close> computes them from the classification, the number of removed rows, the
  level, the carried flag \<^verbatim>\<open>b2bRef.current\<close> and the perfect-clear test. The flag is
  overwritten with the event's own eligibility before the perfect-clear branch reads it.
\<close>

definition scoreClear :: "TSpin \<Rightarrow> int \<Rightarrow> int \<Rightarrow> bool \<Rightarrow> bool \<Rightarrow> int \<times> bool" where
  "scoreClear tspin cleared lvl b2b pc =
     (let gained = (if tspin = TMini then lookupOr0 tMiniBase cleared
                    else if tspin = TFull then lookupOr0 tFullBase cleared
                    else lookupOr0 normalBase cleared);
          gained = gained + lvl * 10;
          isB2BEvent = (cleared = 4 \<or> (tspin \<noteq> TNone \<and> 0 < cleared));
          gained = (if isB2BEvent \<and> b2b then roundTimes15 gained else gained);
          b2b = (if isB2BEvent then True else False)
      in if pc then
           let gained = gained + lookupOr0 pcBonus cleared;
               gained = (if cleared = 4 \<and> b2b then gained + 1200 else gained)
           in (gained, True)
         else (gained, b2b))"

text \<open>
  \<^verbatim>\<open>updateScore\<close> of \<^verbatim>\<open>hooks/useGameLogic.ts\<close>, the same computation with the T-spin,
  back-to-back and perfect-clear facts passed in by the caller; it returns the points.
\<close>

definition updateScore :: "int \<Rightarrow> int \<Rightarrow> bool \<Rightarrow> bool \<Rightarrow> bool \<Rightarrow> int" where
  "updateScore cleared lvl isTSpin' isB2B isPerfectClear' =
     (let gained = (if isTSpin'
                    then (case tMiniBase cleared of
                            Some v \<Rightarrow> v
                          | None \<Rightarrow> lookupOr0 tFullBase cleared)
                    else lookupOr0 normalBase cleared);
          gained = gained + lvl * 10;
          gained = (if isB2B then roundTimes15 gained else gained)
      in if isPerfectClear' then
           let gained = gained + lookupOr0 pcBonus cleared
           in (if cleared = 4 \<and> isB2B then gained + 1200 else gained)
         else gained)"

section \<open>Challenge scheduler\<close>

text \<open>
  \<^verbatim>\<open>startChallenge(newLevel)\<close> of \<^verbatim>\<open>hooks/useChallenge.ts\<close>, which \<^verbatim>\<open>clearLines\<close> of
  \<^verbatim>\<open>gameClient.tsx\<close> contains inline: the synchronous part of the trigger. It pauses the
  run, sets the countdown and schedules the two timers.
\<close>

definition startChallenge :: "int \<Rightarrow> game \<Rightarrow> game" where
  "startChallenge newLevel s =
     (if newLevel mod 2 = 0 then
        let challengeType = (if newLevel mod 4 = 0 then Reverse else Speed);
            newChallenge = \<lparr>ctype = challengeType, duration = 30000, startTime = None\<rparr>;
            isFirstTime = (challengeType \<notin> seenChallenges s);
            initialCountdown = (if isFirstTime then 5 else 3)
        in s\<lparr>paused := True,
             countdown := Some initialCountdown,
             timers := timers s @
               [CountdownInterval newChallenge isFirstTime,
                ChallengeReset (duration newChallenge + (if isFirstTime then 5000 else 3000))]\<rparr>
      else s)"

section \<open>Line clear, spawn and the player operations\<close>

text \<open>
  \<^verbatim>\<open>clearLines\<close>. The piece \<open>cur\<close> is \<^verbatim>\<open>curRef.current!\<close>, which both callers have checked
  and hold. \<^verbatim>\<open>isTSpin\<close> is called inside the \<^verbatim>\<open>cleared > 0\<close> branch, after the row scan,
  and reads \<^verbatim>\<open>boardRef.current\<close> and \<^verbatim>\<open>lastActionRef.current\<close> as they are then.
  \<open>level s\<close> and \<open>lines s\<close> are the values the callback was created with, those before
  the event. This is \<^verbatim>\<open>gameClient.tsx\<close>; the older page with the same engine differs in
  the level formula only (one level per 10 lines, 60 ms per level) and has no challenge.
\<close>

definition clearLines :: "Piece \<Rightarrow> game \<Rightarrow> game" where
  "clearLines cur s =
     (let (board, cleared) = removeFullRows (int ROWS - 1) (boardRef s) 0;
          s1 = s\<lparr>boardRef := board\<rparr>
      in if 0 < cleared then
           let tspin = isTSpin cur s1;
               (gained, b2b) =
                  scoreClear tspin cleared (level s) (b2bRef s) (isPerfectClear board);
               newLevel = 1 + (lines s + cleared) div 5;
               s2 = s1\<lparr>lines := lines s + cleared,
                       b2bRef := b2b,
                       score := score s + gained,
                       level := newLevel,
                       gravityMsRef := max 120 (800 - (newLevel - 1) * 120)\<rparr>;
               s3 = startChallenge newLevel s2
           in s3\<lparr>rotatedWithKickRef := False, lastActionRef := ActNone\<rparr>
         else s1)"

text \<open>
  \<^verbatim>\<open>spawn\<close>. The queue is refilled when two or fewer kinds are left, so it is never
  empty when its head is taken (lemma \<open>spawn_queue_nonempty\<close>) and the first case below
  does not occur.
\<close>

definition spawnQueue :: "(nat \<Rightarrow> nat) \<Rightarrow> game \<Rightarrow> Tetromino list" where
  "spawnQueue rnd s =
     (if length (nextRef s) \<le> 2 then nextRef s @ newBag rnd else nextRef s)"

definition createPiece :: "Tetromino \<Rightarrow> Piece" where
  "createPiece k =
     (let m = SHAPES k;
          width = length (m ! 0)
      in \<lparr>kind = k, matrix = m,
          pos = \<lparr>px = (int COLS - int width) div 2, py = - int (length m) + 1\<rparr>,
          color = COLORS k\<rparr>)"

definition spawn :: "(nat \<Rightarrow> nat) \<Rightarrow> game \<Rightarrow> game" where
  "spawn rnd s =
     (case spawnQueue rnd s of
        [] \<Rightarrow> s
      | k # rest \<Rightarrow>
          let s1 = s\<lparr>nextRef := rest\<rparr>;
              piece = createPiece k
          in if collides piece (boardRef s1) \<lparr>px = 0, py = 0\<rparr>
             then s1\<lparr>running := False, best := max (best s1) (scoreRef s1)\<rparr>
             else s1\<lparr>curRef := Some piece\<rparr>)"

text \<open>
  The descent loop of \<^verbatim>\<open>hardDrop\<close>:
  \<^verbatim>\<open>while (!collides(cur, board, {x: 0, y: 1})) { cur.pos.y++; d++ }\<close>. It does not end for
  a matrix without a filled cell, so it is a partial function and \<open>None\<close> is not
  returning.
\<close>

partial_function (option) dropLoop :: "Piece \<Rightarrow> board \<Rightarrow> int \<Rightarrow> (Piece \<times> int) option" where
  "dropLoop cur board d =
     (if \<not> collides cur board \<lparr>px = 0, py = 1\<rparr>
      then dropLoop (cur\<lparr>pos := (pos cur)\<lparr>py := py (pos cur) + 1\<rparr>\<rparr>) board (d + 1)
      else Some (cur, d))"

declare dropLoop.simps [code]

definition hardDrop :: "(nat \<Rightarrow> nat) \<Rightarrow> game \<Rightarrow> game option" where
  "hardDrop rnd s =
     (if paused s then Some s
      else
        let s1 = s\<lparr>lastActionRef := ActHard\<rparr>
        in case curRef s1 of
             None \<Rightarrow> Some s1
           | Some cur \<Rightarrow>
               if \<not> running s1 then Some s1
               else
                 (case dropLoop cur (boardRef s1) 0 of
                    None \<Rightarrow> None
                  | Some (cur', d) \<Rightarrow>
                      let s2 = s1\<lparr>curRef := Some cur', score := score s1 + max 0 d * 2\<rparr>
                      in Some (spawn rnd (clearLines cur' (merge cur' s2)))))"

definition move :: "int \<Rightarrow> game \<Rightarrow> game" where
  "move dx s =
     (if paused s then s
      else
        let s1 = s\<lparr>lastActionRef := ActMove\<rparr>
        in case curRef s1 of
             None \<Rightarrow> s1
           | Some cur \<Rightarrow>
               if \<not> running s1 then s1
               else
                 let actualDx = (if ctype (challenge s1) = Reverse then - dx else dx)
                 in if \<not> collides cur (boardRef s1) \<lparr>px = actualDx, py = 0\<rparr>
                    then s1\<lparr>curRef := Some (cur\<lparr>pos := (pos cur)\<lparr>px := px (pos cur) + actualDx\<rparr>\<rparr>)\<rparr>
                    else s1)"

definition softDrop :: "(nat \<Rightarrow> nat) \<Rightarrow> game \<Rightarrow> game" where
  "softDrop rnd s =
     (if paused s then s
      else
        let s1 = s\<lparr>lastActionRef := ActSoft\<rparr>
        in case curRef s1 of
             None \<Rightarrow> s1
           | Some cur \<Rightarrow>
               if \<not> running s1 then s1
               else if \<not> collides cur (boardRef s1) \<lparr>px = 0, py = 1\<rparr>
               then s1\<lparr>curRef := Some (cur\<lparr>pos := (pos cur)\<lparr>py := py (pos cur) + 1\<rparr>\<rparr>),
                       score := score s1 + 1\<rparr>
               else spawn rnd (clearLines cur (merge cur s1)))"

text \<open>
  \<^verbatim>\<open>rotate(ccw)\<close> (named \<open>rotatePiece\<close>; \<open>rotate\<close> is a list function of HOL). The loop
  \<^verbatim>\<open>for (const k of kicks)\<close> returns at the first offset whose trial piece does not
  collide. The only error is the TypeError of the matrix rotation on a matrix without
  rows, thrown before any state is touched.
\<close>

definition kicks :: "int list" where
  "kicks = [0, - 1, 1, - 2, 2]"

definition trialPiece :: "Piece \<Rightarrow> matrix \<Rightarrow> int \<Rightarrow> Piece" where
  "trialPiece cur m k = cur\<lparr>matrix := m, pos := (pos cur)\<lparr>px := px (pos cur) + k\<rparr>\<rparr>"

fun tryKicks :: "Piece \<Rightarrow> matrix \<Rightarrow> game \<Rightarrow> int list \<Rightarrow> game" where
  "tryKicks cur m s [] = s"
| "tryKicks cur m s (k # ks) =
     (if \<not> collides (trialPiece cur m k) (boardRef s) \<lparr>px = 0, py = 0\<rparr>
      then s\<lparr>curRef := Some (cur\<lparr>matrix := m, pos := (pos cur)\<lparr>px := px (pos cur) + k\<rparr>\<rparr>),
             rotatedWithKickRef := (k \<noteq> 0),
             lastActionRef := ActRotate\<rparr>
      else tryKicks cur m s ks)"

definition rotatePiece :: "bool \<Rightarrow> game \<Rightarrow> error + game" where
  "rotatePiece ccw s =
     (case curRef s of
        None \<Rightarrow> Inr s
      | Some cur \<Rightarrow>
          if \<not> running s \<or> paused s then Inr s
          else
            (case (if ccw then rotateCCW (matrix cur) else rotateCW (matrix cur)) of
               Inl e \<Rightarrow> Inl e
             | Inr m \<Rightarrow> Inr (tryKicks cur m s kicks)))"

section \<open>The lock as the specification words it\<close>







section \<open>Initial state and example positions\<close>

text \<open>
  The initial values of the \<^verbatim>\<open>useRef\<close> and \<^verbatim>\<open>useState\<close> cells of the component (the
  state \<^verbatim>\<open>reset\<close> re-establishes before it spawns the first piece).
\<close>

definition initialState :: "(nat \<Rightarrow> nat) \<Rightarrow> game" where
  "initialState rnd =
     \<lparr>boardRef = createEmptyBoard, curRef = None, nextRef = newBag rnd, gravityMsRef = 800,
      lastActionRef = ActNone, rotatedWithKickRef = False, b2bRef = False,
      score = 0, lines = 0, level = 1, countdown = None, seenChallenges = {},
      challenge = \<lparr>ctype = NoChallenge, duration = 0, startTime = None\<rparr>,
      best = 0, scoreRef = 0, running = True, paused = False, timers = []\<rparr>"

text \<open>A locked cell, and a row that is filled exactly in the columns satisfying \<open>f\<close>.\<close>

definition lockedCell :: Cell where
  "lockedCell = \<lparr>filled = True, ccolor = Some (COLORS KO), ckind = Some KO\<rparr>"

definition rowWhere :: "(nat \<Rightarrow> bool) \<Rightarrow> Cell list" where
  "rowWhere f = map (\<lambda>x. if f x then lockedCell else emptyCell) [0..<COLS]"


definition iUpright :: "int \<Rightarrow> int \<Rightarrow> Piece" where
  "iUpright x y = \<lparr>kind = KI, matrix = [[0, 0, 1, 0], [0, 0, 1, 0], [0, 0, 1, 0], [0, 0, 1, 0]],
                   pos = \<lparr>px = x, py = y\<rparr>, color = COLORS KI\<rparr>"

definition iFlat :: "int \<Rightarrow> int \<Rightarrow> Piece" where
  "iFlat x y = \<lparr>kind = KI, matrix = SHAPES KI, pos = \<lparr>px = x, py = y\<rparr>, color = COLORS KI\<rparr>"



text \<open>
  A perfect clear by four rows: the four bottom rows are filled except for column 0,
  the upright I piece stands in that column, and no back-to-back flag is carried.
\<close>

definition tetrisPerfectClear :: game where
  "tetrisPerfectClear =
     (initialState (\<lambda>i. 0))
       \<lparr>boardRef := replicate 16 emptyRow @ replicate 4 (rowWhere (\<lambda>x. x \<noteq> 0)),
        curRef := Some (iUpright (- 2) 16),
        b2bRef := False\<rparr>"

text \<open>
  Level 2 has been reached with 5 lines and its speed challenge has been seen; the
  flat I piece completes the bottom row, which makes 6 lines and leaves the level at 2.
  One locked cell in row 18 stays on the board.
\<close>

definition sixthLine :: game where
  "sixthLine =
     (initialState (\<lambda>i. 0))
       \<lparr>boardRef := replicate 18 emptyRow @ [rowWhere (\<lambda>x. x = 9), rowWhere (\<lambda>x. 4 \<le> x)],
        curRef := Some (iFlat 0 18),
        lines := 5, level := 2,
        seenChallenges := {Speed}\<rparr>"

text \<open>The run after game over, with the keyboard still delivering intents.\<close>

definition stopped :: game where
  "stopped = (initialState (\<lambda>i. 0))\<lparr>curRef := Some (iFlat 3 18), running := False\<rparr>"

text \<open>The O piece is next and the cell under its spawn position is taken.\<close>

definition blockedTop :: game where
  "blockedTop =
     (initialState (\<lambda>i. 0))
       \<lparr>boardRef := rowWhere (\<lambda>x. x = 4) # replicate 19 emptyRow,
        nextRef := [KO, KI, KT]\<rparr>"

text \<open>
  The upright I piece in column 0: turned clockwise it lies in row 7 and fits only
  after a kick of two columns to the right, unless a locked cell at \<open>(1, 7)\<close> is in the
  way.
\<close>

definition atLeftWall :: game where
  "atLeftWall = (initialState (\<lambda>i. 0))\<lparr>curRef := Some (iUpright (- 2) 5)\<rparr>"

definition boxedIn :: game where
  "boxedIn =
     (initialState (\<lambda>i. 0))
       \<lparr>boardRef := replicate 7 emptyRow @ [rowWhere (\<lambda>x. x = 1)] @ replicate 12 emptyRow,
        curRef := Some (iUpright (- 2) 5)\<rparr>"

section \<open>Properties of the matrix operations\<close>

text \<open>A loop over \<open>0, \<dots>, n - 1\<close> keeps an invariant indexed by the loop counter.\<close>

lemma fold_upt_inv:
  assumes "P 0 r" and "\<And>k r. k < n \<Longrightarrow> P k r \<Longrightarrow> P (Suc k) (f k r)"
  shows "P n (fold f [0..<n] r)"
  using assms
proof (induction n)
  case 0
  then show ?case by simp
next
  case (Suc n)
  have "P n (fold f [0..<n] r)"
    by (rule Suc.IH) (use Suc.prems in auto)
  then show ?case using Suc.prems(2)[of n] by simp
qed

lemma rect_setCell: "rect r w h \<Longrightarrow> a < w \<Longrightarrow> rect (setCell r a b v) w h"
  by (auto simp: rect_def setCell_def nth_list_update list_all_length)

lemma nth_setCell:
  "rect r w h \<Longrightarrow> a < w \<Longrightarrow> b < h \<Longrightarrow> i < w \<Longrightarrow> j < h \<Longrightarrow>
   setCell r a b v ! i ! j = (if i = a \<and> j = b then v else r ! i ! j)"
  by (auto simp: rect_def setCell_def nth_list_update list_all_length)

lemma rect_zeros: "rect (replicate w (replicate h 0)) w h"
  by (simp add: rect_def list_all_length)

text \<open>The inner loop of \<open>rotateCW\<close> writes column \<open>b\<close> of every row.\<close>

lemma innerCW:
  assumes "rect r w h" "b < h"
  shows "rect (fold (\<lambda>x r. setCell r x b (v x)) [0..<w] r) w h \<and>
         (\<forall>i<w. \<forall>j<h. fold (\<lambda>x r. setCell r x b (v x)) [0..<w] r ! i ! j =
            (if j = b then v i else r ! i ! j))"
proof -
  let ?P = "\<lambda>k r'. rect r' w h \<and>
     (\<forall>i<w. \<forall>j<h. r' ! i ! j = (if i < k \<and> j = b then v i else r ! i ! j))"
  have "?P w (fold (\<lambda>x r. setCell r x b (v x)) [0..<w] r)"
  proof (rule fold_upt_inv[where P = ?P])
    show "?P 0 r" using assms by simp
  next
    fix k r' assume k: "k < w" and P: "?P k r'"
    show "?P (Suc k) (setCell r' k b (v k))"
      using P k assms(2) by (auto simp: rect_setCell nth_setCell less_Suc_eq)
  qed
  then show ?thesis by auto
qed

text \<open>The inner loop of \<open>rotateCCW\<close> writes it from the last row to the first.\<close>

lemma innerCCW:
  assumes "rect r w h" "b < h"
  shows "rect (fold (\<lambda>x r. setCell r (w - 1 - x) b (v x)) [0..<w] r) w h \<and>
         (\<forall>i<w. \<forall>j<h. fold (\<lambda>x r. setCell r (w - 1 - x) b (v x)) [0..<w] r ! i ! j =
            (if j = b then v (w - 1 - i) else r ! i ! j))"
proof -
  let ?P = "\<lambda>k r'. rect r' w h \<and>
     (\<forall>i<w. \<forall>j<h. r' ! i ! j =
        (if w - 1 - i < k \<and> j = b then v (w - 1 - i) else r ! i ! j))"
  have "?P w (fold (\<lambda>x r. setCell r (w - 1 - x) b (v x)) [0..<w] r)"
  proof (rule fold_upt_inv[where P = ?P])
    show "?P 0 r" using assms by simp
  next
    fix k r' assume k: "k < w" and P: "?P k r'"
    have eq: "\<And>i. i < w \<Longrightarrow> (i = w - 1 - k) = (w - 1 - i = k)" using k by auto
    show "?P (Suc k) (setCell r' (w - 1 - k) b (v k))"
      using P k assms(2) by (auto simp: rect_setCell nth_setCell less_Suc_eq eq)
  qed
  then show ?thesis by auto
qed

lemma rect_rows: "rect m h w \<Longrightarrow> y < h \<Longrightarrow> length (m ! y) = w"
  by (auto simp: rect_def list_all_length)

lemma rotateCW_cells:
  assumes "rect m h w" "0 < h"
  shows "\<exists>r. rotateCW m = Inr r \<and> rect r w h \<and>
             (\<forall>i<w. \<forall>j<h. r ! i ! j = m ! (h - 1 - j) ! i)"
proof -
  obtain r0 rs where m: "m = r0 # rs" using assms by (cases m) (auto simp: rect_def)
  have w: "length r0 = w" and h: "length m = h" using assms m by (auto simp: rect_def)
  let ?f = "\<lambda>y. fold (\<lambda>x r. setCell r x (h - 1 - y) (cellAt m y x)) [0..<w]"
  let ?z = "replicate w (replicate h (0::nat))"
  let ?P = "\<lambda>k r. rect r w h \<and>
     (\<forall>i<w. \<forall>j<h. r ! i ! j = (if h - 1 - j < k then cellAt m (h - 1 - j) i else 0))"
  have "?P h (fold ?f [0..<h] ?z)"
  proof (rule fold_upt_inv[where P = ?P])
    show "?P 0 ?z" by (simp add: rect_zeros)
  next
    fix k r assume k: "k < h" and P: "?P k r"
    have b: "h - 1 - k < h" using k by simp
    have eq: "\<And>j. j < h \<Longrightarrow> (j = h - 1 - k) = (h - 1 - j = k)" using k by auto
    from innerCW[OF conjunct1[OF P] b, of "cellAt m k"] P k
    show "?P (Suc k) (?f k r)"
      by (auto simp: less_Suc_eq eq)
  qed
  then have fin: "rect (fold ?f [0..<h] ?z) w h"
    and cells: "\<And>i j. i < w \<Longrightarrow> j < h \<Longrightarrow> fold ?f [0..<h] ?z ! i ! j = cellAt m (h - 1 - j) i"
    by auto
  have res: "rotateCW m = Inr (fold ?f [0..<h] ?z)"
    using m w h by (simp add: rotateCW_def Let_def)
  have "\<forall>i<w. \<forall>j<h. fold ?f [0..<h] ?z ! i ! j = m ! (h - 1 - j) ! i"
    using cells rect_rows[OF assms(1)] h by (auto simp: cellAt_def)
  with fin res show ?thesis by blast
qed

lemma rotateCCW_cells:
  assumes "rect m h w" "0 < h"
  shows "\<exists>r. rotateCCW m = Inr r \<and> rect r w h \<and>
             (\<forall>i<w. \<forall>j<h. r ! i ! j = m ! j ! (w - 1 - i))"
proof -
  obtain r0 rs where m: "m = r0 # rs" using assms by (cases m) (auto simp: rect_def)
  have w: "length r0 = w" and h: "length m = h" using assms m by (auto simp: rect_def)
  let ?f = "\<lambda>y. fold (\<lambda>x r. setCell r (w - 1 - x) y (cellAt m y x)) [0..<w]"
  let ?z = "replicate w (replicate h (0::nat))"
  let ?P = "\<lambda>k r. rect r w h \<and>
     (\<forall>i<w. \<forall>j<h. r ! i ! j = (if j < k then cellAt m j (w - 1 - i) else 0))"
  have "?P h (fold ?f [0..<h] ?z)"
  proof (rule fold_upt_inv[where P = ?P])
    show "?P 0 ?z" by (simp add: rect_zeros)
  next
    fix k r assume k: "k < h" and P: "?P k r"
    from innerCCW[OF conjunct1[OF P] k, of "cellAt m k"] P k
    show "?P (Suc k) (?f k r)"
      by (auto simp: less_Suc_eq)
  qed
  then have fin: "rect (fold ?f [0..<h] ?z) w h"
    and cells: "\<And>i j. i < w \<Longrightarrow> j < h \<Longrightarrow> fold ?f [0..<h] ?z ! i ! j = cellAt m j (w - 1 - i)"
    by auto
  have res: "rotateCCW m = Inr (fold ?f [0..<h] ?z)"
    using m w h by (simp add: rotateCCW_def Let_def)
  have "\<forall>i<w. \<forall>j<h. fold ?f [0..<h] ?z ! i ! j = m ! j ! (w - 1 - i)"
    using cells rect_rows[OF assms(1)] h by (auto simp: cellAt_def)
  with fin res show ?thesis by blast
qed

lemma rect_ext:
  assumes "rect a h w" "rect b h w" "\<And>i j. i < h \<Longrightarrow> j < w \<Longrightarrow> a ! i ! j = b ! i ! j"
  shows "a = b"
proof (rule nth_equalityI)
  show "length a = length b" using assms by (simp add: rect_def)
next
  fix i assume i: "i < length a"
  then have ih: "i < h" using assms(1) by (simp add: rect_def)
  show "a ! i = b ! i"
  proof (rule nth_equalityI)
    show "length (a ! i) = length (b ! i)"
      using rect_rows[OF assms(1) ih] rect_rows[OF assms(2) ih] by simp
  next
    fix j assume "j < length (a ! i)"
    then have "j < w" using rect_rows[OF assms(1) ih] by simp
    then show "a ! i ! j = b ! i ! j" using assms(3) ih by simp
  qed
qed

text \<open>
  Claim C9, as the code has it: for every rectangular matrix \<open>M\<close> with \<open>h \<ge> 1\<close> rows
  and \<open>w\<close> columns, \<open>rotateCW M\<close> is the \<open>w \<times> h\<close> matrix whose cell \<open>(x, h - 1 - y)\<close>
  is cell \<open>(y, x)\<close> of \<open>M\<close>, and \<open>rotateCCW M\<close> is the \<open>w \<times> h\<close> matrix whose cell
  \<open>(w - 1 - x, y)\<close> is cell \<open>(y, x)\<close> of \<open>M\<close>; if moreover \<open>w \<ge> 1\<close>, rotating clockwise
  and then counter-clockwise gives \<open>M\<close> again.
\<close>

theorem rotate_nonempty_rect:
  assumes "rect m h w" "0 < h"
  shows "\<exists>cw ccw. rotateCW m = Inr cw \<and> rotateCCW m = Inr ccw \<and>
           rect cw w h \<and> (\<forall>y<h. \<forall>x<w. cw ! x ! (h - 1 - y) = m ! y ! x) \<and>
           rect ccw w h \<and> (\<forall>y<h. \<forall>x<w. ccw ! (w - 1 - x) ! y = m ! y ! x) \<and>
           (0 < w \<longrightarrow> rotateCCW cw = Inr m)"
proof -
  obtain cw where cw: "rotateCW m = Inr cw" "rect cw w h"
    and cwc: "\<And>i j. i < w \<Longrightarrow> j < h \<Longrightarrow> cw ! i ! j = m ! (h - 1 - j) ! i"
    using rotateCW_cells[OF assms(1,2)] by blast
  obtain ccw where ccw: "rotateCCW m = Inr ccw" "rect ccw w h"
    and ccwc: "\<And>i j. i < w \<Longrightarrow> j < h \<Longrightarrow> ccw ! i ! j = m ! j ! (w - 1 - i)"
    using rotateCCW_cells[OF assms(1,2)] by blast
  have roundtrip: "0 < w \<longrightarrow> rotateCCW cw = Inr m"
  proof
    assume w: "0 < w"
    obtain rt where rt: "rotateCCW cw = Inr rt" "rect rt h w"
      and rtc: "\<And>i j. i < h \<Longrightarrow> j < w \<Longrightarrow> rt ! i ! j = cw ! j ! (h - 1 - i)"
      using rotateCCW_cells[OF cw(2) w] by blast
    have "rt = m"
    proof (rule rect_ext[OF rt(2) assms(1)])
      fix i j assume "i < h" "j < w"
      then show "rt ! i ! j = m ! i ! j" using rtc cwc by simp
    qed
    with rt(1) show "rotateCCW cw = Inr m" by simp
  qed
  have "\<forall>y<h. \<forall>x<w. cw ! x ! (h - 1 - y) = m ! y ! x"
    using cwc by simp
  moreover have "\<forall>y<h. \<forall>x<w. ccw ! (w - 1 - x) ! y = m ! y ! x"
    using ccwc by simp
  ultimately show ?thesis using cw ccw roundtrip by blast
qed

theorem rotate_nonempty_rect_witness:
  "rotateCW [[1, 2, 3], [4, 5, 6]] = Inr [[4, 1], [5, 2], [6, 3]] \<and>
   rotateCCW [[1, 2, 3], [4, 5, 6]] = Inr [[3, 6], [2, 5], [1, 4]] \<and>
   rotateCCW [[4, 1], [5, 2], [6, 3]] = Inr [[1, 2, 3], [4, 5, 6]]"
proof -
  have r: "rect [[1, 2, 3], [4, 5, 6]] 2 3" by (simp add: rect_def)
  have cw: "rotateCW [[1, 2, 3], [4, 5, 6]] = Inr [[4, 1], [5, 2], [6, 3]]" by code_simp
  have ccw: "rotateCCW [[1, 2, 3], [4, 5, 6]] = Inr [[3, 6], [2, 5], [1, 4]]" by code_simp
  from rotate_nonempty_rect[OF r] cw ccw show ?thesis by auto
qed

text \<open>
  Claim C9 as stated covers every rectangular matrix. A matrix of one row and no
  column is rotated clockwise into the matrix without rows, on which \<open>rotateCCW\<close>
  throws; the matrix without rows makes \<open>rotateCW\<close> itself throw.
\<close>

theorem rotate_roundtrip_counterexample:
  "rect [[]] 1 0 \<and> rotateCW [[]] = Inr [] \<and> rotateCCW [] = Inl TypeError \<and>
   rect [] 0 0 \<and> rotateCW [] = Inl TypeError"
  by (simp add: rect_def rotateCW_def rotateCCW_def)

section \<open>Properties of the board model\<close>

lemma collidesRow_iff:
  "collidesRow board nx ny cs \<longleftrightarrow>
     (\<exists>x<length cs. cs ! x \<noteq> 0 \<and> 0 \<le> ny \<and>
        (nx + int x < 0 \<or> int COLS \<le> nx + int x \<or> int ROWS \<le> ny \<or>
         filled (board ! nat ny ! nat (nx + int x))))"
proof (induction cs arbitrary: nx)
  case Nil
  then show ?case by simp
next
  case (Cons c cs)
  have shift: "\<And>x. nx + 1 + int x = nx + int (Suc x)" by simp
  show ?case
    unfolding collidesRow.simps Cons.IH shift
    by (auto simp: less_Suc_eq_0_disj)
qed

lemma collidesRows_iff:
  "collidesRows board nx ny m \<longleftrightarrow>
     (\<exists>y<length m. collidesRow board nx (ny + int y) (m ! y))"
proof (induction m arbitrary: ny)
  case Nil
  then show ?case by simp
next
  case (Cons r rs)
  have shift: "\<And>y. ny + 1 + int y = ny + int (Suc y)" by simp
  show ?case
    unfolding collidesRows.simps Cons.IH shift
    by (auto simp: less_Suc_eq_0_disj)
qed

lemma collides_iff:
  "collides p board delta \<longleftrightarrow>
     (\<exists>y<length (matrix p). \<exists>x<length (matrix p ! y).
        matrix p ! y ! x \<noteq> 0 \<and> 0 \<le> py (pos p) + int y + py delta \<and>
        (px (pos p) + int x + px delta < 0 \<or> int COLS \<le> px (pos p) + int x + px delta \<or>
         int ROWS \<le> py (pos p) + int y + py delta \<or>
         filled (board ! nat (py (pos p) + int y + py delta)
                      ! nat (px (pos p) + int x + px delta))))"
proof -
  have a: "\<And>y. py (pos p) + py delta + int y = py (pos p) + int y + py delta" by simp
  have b: "\<And>x. px (pos p) + px delta + int x = px (pos p) + int x + px delta" by simp
  show ?thesis
    unfolding collides_def collidesRows_iff collidesRow_iff a b ..
qed

text \<open>
  Claim C10: in \<open>collides\<close> the test \<open>ny < 0\<close> comes first. A collision is always
  caused by a filled matrix cell whose board row is not negative; a filled cell with a
  negative board row causes none, wherever its board column is, so a piece all of whose
  filled cells are above the top of the board does not collide, also when it overhangs a
  side wall.
\<close>

theorem collides_negative_row_exempt:
  "(collides p board delta \<longleftrightarrow>
     (\<exists>y<length (matrix p). \<exists>x<length (matrix p ! y).
        matrix p ! y ! x \<noteq> 0 \<and> \<not> py (pos p) + int y + py delta < 0 \<and>
        (px (pos p) + int x + px delta < 0 \<or> int COLS \<le> px (pos p) + int x + px delta \<or>
         int ROWS \<le> py (pos p) + int y + py delta \<or>
         filled (board ! nat (py (pos p) + int y + py delta)
                      ! nat (px (pos p) + int x + px delta))))) \<and>
   ((\<forall>y<length (matrix p). \<forall>x<length (matrix p ! y).
        matrix p ! y ! x \<noteq> 0 \<longrightarrow> py (pos p) + int y + py delta < 0)
    \<longrightarrow> \<not> collides p board delta)"
  unfolding collides_iff by (auto simp: not_less)

theorem collides_negative_row_exempt_witness:
  "\<not> collides \<lparr>kind = KI, matrix = SHAPES KI, pos = \<lparr>px = 8, py = - 2\<rparr>, color = COLORS KI\<rparr>
        createEmptyBoard \<lparr>px = 0, py = 0\<rparr> \<and>
   collides \<lparr>kind = KI, matrix = SHAPES KI, pos = \<lparr>px = 8, py = - 1\<rparr>, color = COLORS KI\<rparr>
        createEmptyBoard \<lparr>px = 0, py = 0\<rparr>"
proof -
  let ?p = "\<lparr>kind = KI, matrix = SHAPES KI, pos = \<lparr>px = 8, py = - 2\<rparr>, color = COLORS KI\<rparr>"
  let ?d = "\<lparr>px = 0, py = 0\<rparr>"
  have h: "\<forall>y<length (matrix ?p). \<forall>x<length (matrix ?p ! y).
      matrix ?p ! y ! x \<noteq> 0 \<longrightarrow> py (pos ?p) + int y + py ?d < 0"
    by (auto simp: less_Suc_eq nth_Cons' numeral_eq_Suc)
  have above: "\<not> collides ?p createEmptyBoard ?d"
    using h collides_negative_row_exempt[of ?p createEmptyBoard ?d] by blast
  have c: "collides \<lparr>kind = KI, matrix = SHAPES KI, pos = \<lparr>px = 8, py = - 1\<rparr>, color = COLORS KI\<rparr>
        createEmptyBoard \<lparr>px = 0, py = 0\<rparr>"
    by code_simp
  from above c show ?thesis by blast
qed

section \<open>The row scan\<close>

lemma emptyRow_not_full: "\<not> list_all filled emptyRow"
  by (simp add: emptyRow_def COLS_def emptyCell_def list_all_iff)

text \<open>
  The invariant of the scan: the rows below the index under examination are not full.
  From such a state the scan ends with one empty row on top for each full row and the
  other rows in their order.
\<close>

lemma removeFullRows_scan:
  "y < int (length board) \<Longrightarrow>
   list_all (\<lambda>r. \<not> list_all filled r) (drop (nat (y + 1)) board) \<Longrightarrow>
   removeFullRows y board cleared =
     (replicate (length (filter (list_all filled) board)) emptyRow @
        filter (\<lambda>r. \<not> list_all filled r) board,
      cleared + int (length (filter (list_all filled) board)))"
proof (induction y board cleared rule: removeFullRows.induct)
  case (1 y board cleared)
  show ?case
  proof (cases "y < 0")
    case True
    then have "list_all (\<lambda>r. \<not> list_all filled r) board"
      using "1.prems"(2) by simp
    then have "filter (list_all filled) board = []"
      and "filter (\<lambda>r. \<not> list_all filled r) board = board"
      by (auto simp: list_all_iff filter_empty_conv filter_id_conv)
    with True show ?thesis by (subst removeFullRows.simps) simp
  next
    case False
    let ?n = "nat y"
    have n: "?n < length board" and ny: "nat (y + 1) = Suc ?n"
      using False "1.prems"(1) by auto
    have split: "board = take ?n board @ board ! ?n # drop (Suc ?n) board"
      using id_take_nth_drop[OF n] .
    show ?thesis
    proof (cases "list_all filled (board ! ?n)")
      case True
      let ?rest = "take ?n board @ drop (Suc ?n) board"
      let ?board' = "emptyRow # ?rest"
      have full: "?n < length board \<and> list_all filled (board ! ?n)"
        using n True by simp
      have len: "y < int (length ?board')" using n False by simp
      have below: "list_all (\<lambda>r. \<not> list_all filled r) (drop (nat (y + 1)) ?board')"
        using "1.prems"(2) n by (simp add: ny)
      have IH: "removeFullRows y ?board' (cleared + 1) =
          (replicate (length (filter (list_all filled) ?board')) emptyRow @
             filter (\<lambda>r. \<not> list_all filled r) ?board',
           cleared + 1 + int (length (filter (list_all filled) ?board')))"
        by (rule "1.IH"(1)[OF False full len below])
      have cnt: "length (filter (list_all filled) board) =
                 Suc (length (filter (list_all filled) ?rest))"
        using True by (subst split) simp
      have keep: "filter (\<lambda>r. \<not> list_all filled r) board =
                  filter (\<lambda>r. \<not> list_all filled r) ?rest"
        using True by (subst split) simp
      have step: "removeFullRows y board cleared = removeFullRows y ?board' (cleared + 1)"
        using False full by (subst removeFullRows.simps) simp
      show ?thesis
        unfolding step IH cnt keep
        by (simp add: emptyRow_not_full replicate_app_Cons_same)
    next
      case notfull: False
      have nf: "\<not> (?n < length board \<and> list_all filled (board ! ?n))"
        using notfull by simp
      have len: "y - 1 < int (length board)" using "1.prems"(1) by simp
      have "drop ?n board = board ! ?n # drop (Suc ?n) board"
        using n by (simp add: Cons_nth_drop_Suc)
      then have below: "list_all (\<lambda>r. \<not> list_all filled r) (drop (nat (y - 1 + 1)) board)"
        using "1.prems"(2) notfull by (simp add: ny)
      have step: "removeFullRows y board cleared = removeFullRows (y - 1) board cleared"
        using False notfull by (subst removeFullRows.simps) auto
      show ?thesis
        unfolding step by (rule "1.IH"(2)[OF False nf len below])
    qed
  qed
qed

lemma removeFullRows_all:
  assumes "length board = ROWS"
  shows "removeFullRows (int ROWS - 1) board 0 =
     (replicate (length (filter (list_all filled) board)) emptyRow @
        filter (\<lambda>r. \<not> list_all filled r) board,
      int (length (filter (list_all filled) board)))"
proof -
  have "nat (int ROWS - 1 + 1) = length board" using assms by simp
  then have "list_all (\<lambda>r. \<not> list_all filled r) (drop (nat (int ROWS - 1 + 1)) board)"
    by simp
  moreover have "int ROWS - 1 < int (length board)" using assms by simp
  ultimately show ?thesis
    using removeFullRows_scan[of "int ROWS - 1" board 0] by simp
qed

lemma boardRef_startChallenge [simp]: "boardRef (startChallenge n s) = boardRef s"
  by (simp add: startChallenge_def Let_def)

lemma lines_startChallenge [simp]: "lines (startChallenge n s) = lines s"
  by (simp add: startChallenge_def Let_def)

lemma score_startChallenge [simp]: "score (startChallenge n s) = score s"
  by (simp add: startChallenge_def Let_def)

lemma clearLines_without_full_rows:
  assumes "length (boardRef s) = ROWS" "filter (list_all filled) (boardRef s) = []"
  shows "removeFullRows (int ROWS - 1) (boardRef s) 0 = (boardRef s, 0)"
    and "clearLines cur s = s"
proof -
  have "filter (\<lambda>r. \<not> list_all filled r) (boardRef s) = boardRef s"
    using assms(2) by (auto simp: filter_empty_conv filter_id_conv)
  with assms(2) removeFullRows_all[OF assms(1)]
  show r: "removeFullRows (int ROWS - 1) (boardRef s) 0 = (boardRef s, 0)"
    by simp
  then show "clearLines cur s = s"
    by (simp add: clearLines_def)
qed

text \<open>
  When a row has been removed, the challenge trigger of \<open>clearLines\<close> looks at the
  new level alone.
\<close>

lemma clearLines_fires_at_even_level:
  assumes "length (boardRef s) = ROWS" "filter (list_all filled) (boardRef s) \<noteq> []"
  shows "timers (clearLines cur s) =
           timers (startChallenge
                     (1 + (lines s + int (length (filter (list_all filled) (boardRef s)))) div 5) s)"
    and "paused (clearLines cur s) =
           (paused s \<or>
            (1 + (lines s + int (length (filter (list_all filled) (boardRef s)))) div 5) mod 2 = 0)"
  using assms(2)
  by (simp_all add: clearLines_def removeFullRows_all[OF assms(1)] Let_def startChallenge_def
               split: prod.splits)

text \<open>
  Claim C8: on every board (of \<open>ROWS\<close> rows) the row scan of \<open>clearLines\<close> removes
  exactly the full rows, however many there are, puts one new empty row on top for each
  of them, keeps the other rows in their order, and counts the removed rows; the count
  is what \<open>clearLines\<close> adds to \<open>lines\<close>. With no full row the count is 0 and the board,
  and the whole state, is unchanged.
\<close>

theorem clearLines_removes_full_rows:
  assumes "length (boardRef s) = ROWS"
  shows "removeFullRows (int ROWS - 1) (boardRef s) 0 =
           (replicate (length (filter (list_all filled) (boardRef s))) emptyRow @
              filter (\<lambda>r. \<not> list_all filled r) (boardRef s),
            int (length (filter (list_all filled) (boardRef s)))) \<and>
         boardRef (clearLines cur s) =
           replicate (length (filter (list_all filled) (boardRef s))) emptyRow @
              filter (\<lambda>r. \<not> list_all filled r) (boardRef s) \<and>
         lines (clearLines cur s) = lines s + int (length (filter (list_all filled) (boardRef s))) \<and>
         (filter (list_all filled) (boardRef s) = [] \<longrightarrow>
            removeFullRows (int ROWS - 1) (boardRef s) 0 = (boardRef s, 0) \<and>
            clearLines cur s = s)"
proof -
  note scan = removeFullRows_all[OF assms]
  have b: "boardRef (clearLines cur s) =
           replicate (length (filter (list_all filled) (boardRef s))) emptyRow @
              filter (\<lambda>r. \<not> list_all filled r) (boardRef s)"
    by (simp add: clearLines_def scan Let_def split: prod.splits)
  have l: "lines (clearLines cur s) =
           lines s + int (length (filter (list_all filled) (boardRef s)))"
    by (simp add: clearLines_def scan Let_def split: prod.splits)
  have z: "filter (list_all filled) (boardRef s) = [] \<longrightarrow>
            removeFullRows (int ROWS - 1) (boardRef s) 0 = (boardRef s, 0) \<and>
            clearLines cur s = s"
    using clearLines_without_full_rows[OF assms] by blast
  from scan b l z show ?thesis by blast
qed

theorem clearLines_removes_full_rows_witness:
  "length (boardRef (merge (iFlat 0 18) sixthLine)) = ROWS \<and>
   length (filter (list_all filled) (boardRef (merge (iFlat 0 18) sixthLine))) = 1 \<and>
   boardRef (clearLines (iFlat 0 18) (merge (iFlat 0 18) sixthLine)) =
     replicate 19 emptyRow @ [rowWhere (\<lambda>x. x = 9)] \<and>
   lines (clearLines (iFlat 0 18) (merge (iFlat 0 18) sixthLine)) = 6"
proof -
  let ?s = "merge (iFlat 0 18) sixthLine"
  have len: "length (boardRef ?s) = ROWS" by code_simp
  have k: "length (filter (list_all filled) (boardRef ?s)) = 1" by code_simp
  have rest: "filter (\<lambda>r. \<not> list_all filled r) (boardRef ?s) =
              replicate 18 emptyRow @ [rowWhere (\<lambda>x. x = 9)]"
    by code_simp
  have l: "lines ?s = 5" by code_simp
  have top: "replicate 1 emptyRow @ replicate 18 emptyRow @ [rowWhere (\<lambda>x. x = 9)] =
             replicate 19 emptyRow @ [rowWhere (\<lambda>x. x = 9)]"
    by (simp add: numeral_eq_Suc)
  from clearLines_removes_full_rows[OF len, of "iFlat 0 18"]
  have "boardRef (clearLines (iFlat 0 18) ?s) =
          replicate 1 emptyRow @ replicate 18 emptyRow @ [rowWhere (\<lambda>x. x = 9)] \<and>
        lines (clearLines (iFlat 0 18) ?s) = 5 + 1"
    unfolding k rest l by simp
  with len k top show ?thesis by simp
qed

section \<open>The shape of the board is kept\<close>

lemma wf_createEmptyBoard: "wf_board createEmptyBoard"
  by (simp add: wf_board_def createEmptyBoard_def emptyRow_def list_all_iff)

lemma wf_writeCell: "wf_board b \<Longrightarrow> wf_board (writeCell b y x c)"
  by (auto simp: wf_board_def writeCell_def list_all_length nth_list_update)

lemma wf_mergeRow: "wf_board b \<Longrightarrow> wf_board (mergeRow b x y c cs)"
  by (induction cs arbitrary: b x) (auto simp: wf_writeCell)

lemma wf_mergeRows: "wf_board b \<Longrightarrow> wf_board (mergeRows b x y c m)"
  by (induction m arbitrary: b y) (auto simp: wf_mergeRow)

lemma wf_merge: "wf_board (boardRef s) \<Longrightarrow> wf_board (boardRef (merge p s))"
  by (simp add: merge_def wf_mergeRows)

lemma wf_removeFullRows:
  assumes "wf_board b"
  shows "wf_board (fst (removeFullRows (int ROWS - 1) b 0))"
proof -
  have len: "length b = ROWS" and rows: "\<forall>r\<in>set b. length r = COLS"
    using assms by (auto simp: wf_board_def list_all_iff)
  have "length (filter (list_all filled) b) + length (filter (\<lambda>r. \<not> list_all filled r) b) =
        length b"
    by (rule sum_length_filter_compl)
  then show ?thesis
    using len rows
    by (auto simp: removeFullRows_all[OF len] wf_board_def list_all_iff emptyRow_def)
qed

lemma wf_clearLines:
  assumes "wf_board (boardRef s)"
  shows "wf_board (boardRef (clearLines cur s))"
proof -
  have "boardRef (clearLines cur s) = fst (removeFullRows (int ROWS - 1) (boardRef s) 0)"
    by (simp add: clearLines_def Let_def split: prod.splits)
  then show ?thesis using wf_removeFullRows[OF assms] by simp
qed

section \<open>A lock by a drop\<close>

text \<open>
  Both \<open>softDrop\<close> and \<open>hardDrop\<close> overwrite the last-action record before they lock,
  and \<open>merge\<close> and the row scan do not touch it: \<open>isTSpin\<close>, called from \<open>clearLines\<close>,
  finds \<open>soft\<close> or \<open>hard\<close> there and answers \<open>none\<close> whatever the board.
\<close>

lemma lock_by_drop_is_never_tspin:
  "a = ActSoft \<or> a = ActHard \<Longrightarrow>
   isTSpin cur ((merge cur (s\<lparr>lastActionRef := a\<rparr>))\<lparr>boardRef := b\<rparr>) = TNone"
  by (auto simp: isTSpin_def merge_def)

lemma hardDrop_example:
  "map_option score (hardDrop (\<lambda>i. 0) (spawn (\<lambda>i. 0) (initialState (\<lambda>i. 0)))) = Some 40"
  by code_simp

section \<open>Spawn\<close>

lemma length_shuffle: "length (shuffle rnd n bag) = length bag"
  by (induction n arbitrary: bag) (auto simp: Let_def)

lemma length_newBag: "length (newBag rnd) = 7"
  by (simp only: newBag_def Let_def length_shuffle) simp

lemma spawn_queue_nonempty: "spawnQueue rnd s \<noteq> []"
proof
  assume e: "spawnQueue rnd s = []"
  then have "length (spawnQueue rnd s) = 0" by simp
  then show False
    using length_newBag[of rnd] by (auto simp: spawnQueue_def split: if_splits)
qed

text \<open>
  Claim C6: \<open>spawn\<close> takes the head \<open>k\<close> of the (refilled) queue and creates its piece.
  If that piece collides with the board at zero delta, the run stops
  (\<open>running\<close> becomes false) and \<open>spawn\<close> sets no active piece: the slot \<open>curRef\<close> is
  left as it was, and so are the board and the score. Otherwise the piece becomes the
  active piece, the board and the score are as before, and the piece does not collide
  with the board at zero delta after \<open>spawn\<close>.
\<close>

theorem spawn_contract:
  "\<exists>k rest. spawnQueue rnd s = k # rest \<and>
     (collides (createPiece k) (boardRef s) \<lparr>px = 0, py = 0\<rparr> \<longrightarrow>
        \<not> running (spawn rnd s) \<and> curRef (spawn rnd s) = curRef s \<and>
        boardRef (spawn rnd s) = boardRef s \<and> score (spawn rnd s) = score s) \<and>
     (\<not> collides (createPiece k) (boardRef s) \<lparr>px = 0, py = 0\<rparr> \<longrightarrow>
        curRef (spawn rnd s) = Some (createPiece k) \<and> running (spawn rnd s) = running s \<and>
        boardRef (spawn rnd s) = boardRef s \<and> score (spawn rnd s) = score s \<and>
        \<not> collides (createPiece k) (boardRef (spawn rnd s)) \<lparr>px = 0, py = 0\<rparr>)"
proof (cases "spawnQueue rnd s")
  case Nil
  then show ?thesis using spawn_queue_nonempty by blast
next
  case (Cons k rest)
  then show ?thesis by (simp add: spawn_def Let_def)
qed

theorem spawn_contract_witness:
  "\<not> running (spawn (\<lambda>i. 0) blockedTop) \<and> curRef (spawn (\<lambda>i. 0) blockedTop) = None \<and>
   curRef (spawn (\<lambda>i. 0) (initialState (\<lambda>i. 0))) = Some (createPiece KJ)"
proof -
  have q1: "spawnQueue (\<lambda>i. 0) blockedTop = [KO, KI, KT]" by code_simp
  have c1: "collides (createPiece KO) (boardRef blockedTop) \<lparr>px = 0, py = 0\<rparr>" by code_simp
  have n1: "curRef blockedTop = None" by code_simp
  have q2: "spawnQueue (\<lambda>i. 0) (initialState (\<lambda>i. 0)) = [KJ, KL, KO, KS, KT, KZ, KI]"
    by code_simp
  have c2: "\<not> collides (createPiece KJ) (boardRef (initialState (\<lambda>i. 0))) \<lparr>px = 0, py = 0\<rparr>"
    by code_simp
  from spawn_contract[of "\<lambda>i. 0" blockedTop] q1 c1 n1
  have a: "\<not> running (spawn (\<lambda>i. 0) blockedTop) \<and> curRef (spawn (\<lambda>i. 0) blockedTop) = None"
    by auto
  from spawn_contract[of "\<lambda>i. 0" "initialState (\<lambda>i. 0)"] q2 c2
  have b: "curRef (spawn (\<lambda>i. 0) (initialState (\<lambda>i. 0))) = Some (createPiece KJ)"
    by auto
  from a b show ?thesis by blast
qed

section \<open>Rotation with kicks\<close>

lemma tryKicks_all_collide:
  "\<forall>k\<in>set ks. collides (trialPiece cur m k) (boardRef s) \<lparr>px = 0, py = 0\<rparr> \<Longrightarrow>
   tryKicks cur m s ks = s"
  by (induction ks) auto

lemma tryKicks_first:
  "i < length ks \<Longrightarrow>
   \<not> collides (trialPiece cur m (ks ! i)) (boardRef s) \<lparr>px = 0, py = 0\<rparr> \<Longrightarrow>
   \<forall>j<i. collides (trialPiece cur m (ks ! j)) (boardRef s) \<lparr>px = 0, py = 0\<rparr> \<Longrightarrow>
   tryKicks cur m s ks =
     s\<lparr>curRef := Some (cur\<lparr>matrix := m, pos := (pos cur)\<lparr>px := px (pos cur) + ks ! i\<rparr>\<rparr>),
       rotatedWithKickRef := (ks ! i \<noteq> 0),
       lastActionRef := ActRotate\<rparr>"
proof (induction ks arbitrary: i)
  case Nil
  then show ?case by simp
next
  case (Cons k ks)
  show ?case
  proof (cases i)
    case 0
    with Cons.prems show ?thesis by simp
  next
    case (Suc i')
    have first: "collides (trialPiece cur m k) (boardRef s) \<lparr>px = 0, py = 0\<rparr>"
      using Cons.prems(3) Suc by auto
    have rest: "\<forall>j<i'. collides (trialPiece cur m (ks ! j)) (boardRef s) \<lparr>px = 0, py = 0\<rparr>"
      using Cons.prems(3) Suc by auto
    have "tryKicks cur m s ks =
       s\<lparr>curRef := Some (cur\<lparr>matrix := m, pos := (pos cur)\<lparr>px := px (pos cur) + ks ! i'\<rparr>\<rparr>),
         rotatedWithKickRef := (ks ! i' \<noteq> 0),
         lastActionRef := ActRotate\<rparr>"
      using Cons.IH[of i'] Cons.prems(1,2) Suc rest by simp
    with first Suc show ?thesis by simp
  qed
qed

lemma rotation_defined:
  "m \<noteq> [] \<Longrightarrow> \<exists>r. (if ccw then rotateCCW m else rotateCW m) = Inr r"
  by (cases m) (auto simp: rotateCW_def rotateCCW_def Let_def)

text \<open>
  Claim C7: with an active piece in a running, unpaused game, \<open>rotate(ccw)\<close> rotates
  the matrix and tries the offsets \<open>[0, -1, +1, -2, +2]\<close> in this order on the rotated
  matrix at the piece's row. The first offset whose trial piece does not collide is
  accepted: matrix and x-position are updated, the kicked flag is set iff the offset is
  not 0, the last action is \<open>rotate\<close>. If all five collide the state is returned
  unchanged, and no error is raised.
\<close>

theorem rotate_kick_search:
  assumes "curRef s = Some cur" "running s" "\<not> paused s" "matrix cur \<noteq> []"
  shows "\<exists>m. (if ccw then rotateCCW (matrix cur) else rotateCW (matrix cur)) = Inr m \<and>
     ((\<forall>k\<in>set [0, - 1, 1, - 2, 2].
          collides (trialPiece cur m k) (boardRef s) \<lparr>px = 0, py = 0\<rparr>)
        \<longrightarrow> rotatePiece ccw s = Inr s) \<and>
     (\<forall>i<5.
        \<not> collides (trialPiece cur m ([0, - 1, 1, - 2, 2] ! i)) (boardRef s) \<lparr>px = 0, py = 0\<rparr> \<and>
        (\<forall>j<i. collides (trialPiece cur m ([0, - 1, 1, - 2, 2] ! j)) (boardRef s)
                  \<lparr>px = 0, py = 0\<rparr>)
        \<longrightarrow> rotatePiece ccw s =
              Inr (s\<lparr>curRef := Some (cur\<lparr>matrix := m,
                                         pos := (pos cur)\<lparr>px := px (pos cur) + [0, - 1, 1, - 2, 2] ! i\<rparr>\<rparr>),
                     rotatedWithKickRef := ([0, - 1, 1, - 2, 2] ! i \<noteq> (0::int)),
                     lastActionRef := ActRotate\<rparr>))"
proof -
  obtain m where m: "(if ccw then rotateCCW (matrix cur) else rotateCW (matrix cur)) = Inr m"
    using rotation_defined[OF assms(4)] by blast
  have r: "rotatePiece ccw s = Inr (tryKicks cur m s kicks)"
    using assms(1,2,3) m by (simp add: rotatePiece_def)
  have none: "(\<forall>k\<in>set [0, - 1, 1, - 2, 2].
          collides (trialPiece cur m k) (boardRef s) \<lparr>px = 0, py = 0\<rparr>)
        \<longrightarrow> rotatePiece ccw s = Inr s"
    using tryKicks_all_collide[of kicks cur m s] r by (simp add: kicks_def)
  have some: "\<forall>i<5.
        \<not> collides (trialPiece cur m ([0, - 1, 1, - 2, 2] ! i)) (boardRef s) \<lparr>px = 0, py = 0\<rparr> \<and>
        (\<forall>j<i. collides (trialPiece cur m ([0, - 1, 1, - 2, 2] ! j)) (boardRef s)
                  \<lparr>px = 0, py = 0\<rparr>)
        \<longrightarrow> rotatePiece ccw s =
              Inr (s\<lparr>curRef := Some (cur\<lparr>matrix := m,
                                         pos := (pos cur)\<lparr>px := px (pos cur) + [0, - 1, 1, - 2, 2] ! i\<rparr>\<rparr>),
                     rotatedWithKickRef := ([0, - 1, 1, - 2, 2] ! i \<noteq> (0::int)),
                     lastActionRef := ActRotate\<rparr>)"
  proof (intro allI impI)
    fix i :: nat
    assume i: "i < 5"
      and ok: "\<not> collides (trialPiece cur m ([0, - 1, 1, - 2, 2] ! i)) (boardRef s) \<lparr>px = 0, py = 0\<rparr> \<and>
        (\<forall>j<i. collides (trialPiece cur m ([0, - 1, 1, - 2, 2] ! j)) (boardRef s)
                  \<lparr>px = 0, py = 0\<rparr>)"
    have "tryKicks cur m s [0, - 1, 1, - 2, 2] =
       s\<lparr>curRef := Some (cur\<lparr>matrix := m,
                             pos := (pos cur)\<lparr>px := px (pos cur) + [0, - 1, 1, - 2, 2] ! i\<rparr>\<rparr>),
         rotatedWithKickRef := ([0, - 1, 1, - 2, 2] ! i \<noteq> (0::int)),
         lastActionRef := ActRotate\<rparr>"
      by (rule tryKicks_first) (use i ok in auto)
    then show "rotatePiece ccw s =
              Inr (s\<lparr>curRef := Some (cur\<lparr>matrix := m,
                                         pos := (pos cur)\<lparr>px := px (pos cur) + [0, - 1, 1, - 2, 2] ! i\<rparr>\<rparr>),
                     rotatedWithKickRef := ([0, - 1, 1, - 2, 2] ! i \<noteq> (0::int)),
                     lastActionRef := ActRotate\<rparr>)"
      using r by (simp add: kicks_def)
  qed
  from m none some show ?thesis by blast
qed

theorem rotate_kick_search_witness:
  "rotatePiece False boxedIn = Inr boxedIn \<and>
   rotatePiece False atLeftWall =
     Inr (atLeftWall
            \<lparr>curRef := Some ((iUpright (- 2) 5)
                               \<lparr>matrix := [[0, 0, 0, 0], [0, 0, 0, 0], [1, 1, 1, 1], [0, 0, 0, 0]],
                                pos := \<lparr>px = 0, py = 5\<rparr>\<rparr>),
             rotatedWithKickRef := True,
             lastActionRef := ActRotate\<rparr>)"
proof -
  let ?c = "iUpright (- 2) 5"
  let ?m = "[[0, 0, 0, 0], [0, 0, 0, 0], [1, 1, 1, 1], [0, 0, 0, 0]] :: matrix"
  let ?z = "\<lparr>px = 0, py = 0\<rparr>"
  have ne: "matrix ?c \<noteq> []" by (simp add: iUpright_def)
  have rot: "rotateCW (matrix ?c) = Inr ?m" by code_simp
  have pos: "pos ?c = \<lparr>px = - 2, py = 5\<rparr>" by (simp add: iUpright_def)
  have b: "curRef boxedIn = Some ?c" "running boxedIn" "\<not> paused boxedIn"
    by (simp_all add: boxedIn_def initialState_def)
  have b0: "collides (trialPiece ?c ?m 0) (boardRef boxedIn) ?z" by code_simp
  have b1: "collides (trialPiece ?c ?m (- 1)) (boardRef boxedIn) ?z" by code_simp
  have b2: "collides (trialPiece ?c ?m 1) (boardRef boxedIn) ?z" by code_simp
  have b3: "collides (trialPiece ?c ?m (- 2)) (boardRef boxedIn) ?z" by code_simp
  have b4: "collides (trialPiece ?c ?m 2) (boardRef boxedIn) ?z" by code_simp
  from rotate_kick_search[OF b ne, of False] rot
  have "(\<forall>k\<in>set [0, - 1, 1, - 2, 2]. collides (trialPiece ?c ?m k) (boardRef boxedIn) ?z)
        \<longrightarrow> rotatePiece False boxedIn = Inr boxedIn"
    by auto
  with b0 b1 b2 b3 b4 have boxed: "rotatePiece False boxedIn = Inr boxedIn" by simp
  have a: "curRef atLeftWall = Some ?c" "running atLeftWall" "\<not> paused atLeftWall"
    by (simp_all add: atLeftWall_def initialState_def)
  have a0: "collides (trialPiece ?c ?m 0) (boardRef atLeftWall) ?z" by code_simp
  have a1: "collides (trialPiece ?c ?m (- 1)) (boardRef atLeftWall) ?z" by code_simp
  have a2: "collides (trialPiece ?c ?m 1) (boardRef atLeftWall) ?z" by code_simp
  have a3: "collides (trialPiece ?c ?m (- 2)) (boardRef atLeftWall) ?z" by code_simp
  have a4: "\<not> collides (trialPiece ?c ?m 2) (boardRef atLeftWall) ?z" by code_simp
  have four: "\<And>j::nat. j < 4 \<Longrightarrow> j = 0 \<or> j = 1 \<or> j = 2 \<or> j = 3" by arith
  have before: "\<forall>j<4. collides (trialPiece ?c ?m ([0, - 1, 1, - 2, 2] ! j)) (boardRef atLeftWall) ?z"
    using a0 a1 a2 a3 four by fastforce
  have at4: "\<not> collides (trialPiece ?c ?m ([0, - 1, 1, - 2, 2] ! 4)) (boardRef atLeftWall) ?z"
    using a4 by simp
  from rotate_kick_search[OF a ne, of False] rot
  have "\<forall>i<5.
        \<not> collides (trialPiece ?c ?m ([0, - 1, 1, - 2, 2] ! i)) (boardRef atLeftWall) ?z \<and>
        (\<forall>j<i. collides (trialPiece ?c ?m ([0, - 1, 1, - 2, 2] ! j)) (boardRef atLeftWall) ?z)
        \<longrightarrow> rotatePiece False atLeftWall =
              Inr (atLeftWall
                     \<lparr>curRef := Some (?c\<lparr>matrix := ?m,
                                         pos := (pos ?c)\<lparr>px := px (pos ?c) + [0, - 1, 1, - 2, 2] ! i\<rparr>\<rparr>),
                      rotatedWithKickRef := ([0, - 1, 1, - 2, 2] ! i \<noteq> (0::int)),
                      lastActionRef := ActRotate\<rparr>)"
    by auto
  then have "\<not> collides (trialPiece ?c ?m ([0, - 1, 1, - 2, 2] ! 4)) (boardRef atLeftWall) ?z \<and>
        (\<forall>j<4. collides (trialPiece ?c ?m ([0, - 1, 1, - 2, 2] ! j)) (boardRef atLeftWall) ?z)
        \<longrightarrow> rotatePiece False atLeftWall =
              Inr (atLeftWall
                     \<lparr>curRef := Some (?c\<lparr>matrix := ?m,
                                         pos := (pos ?c)\<lparr>px := px (pos ?c) + [0, - 1, 1, - 2, 2] ! 4\<rparr>\<rparr>),
                      rotatedWithKickRef := ([0, - 1, 1, - 2, 2] ! 4 \<noteq> (0::int)),
                      lastActionRef := ActRotate\<rparr>)"
    by (rule allE[where x = 4]) simp
  with at4 before have "rotatePiece False atLeftWall =
              Inr (atLeftWall
                     \<lparr>curRef := Some (?c\<lparr>matrix := ?m,
                                         pos := (pos ?c)\<lparr>px := px (pos ?c) + [0, - 1, 1, - 2, 2] ! 4\<rparr>\<rparr>),
                      rotatedWithKickRef := ([0, - 1, 1, - 2, 2] ! 4 \<noteq> (0::int)),
                      lastActionRef := ActRotate\<rparr>)"
    by blast
  then have kicked: "rotatePiece False atLeftWall =
     Inr (atLeftWall
            \<lparr>curRef := Some (?c\<lparr>matrix := ?m, pos := \<lparr>px = 0, py = 5\<rparr>\<rparr>),
             rotatedWithKickRef := True,
             lastActionRef := ActRotate\<rparr>)"
    by (simp add: pos)
  from boxed kicked show ?thesis by blast
qed

section \<open>The operations while the run is paused or over\<close>

lemma paused_noop:
  assumes "paused s"
  shows "move dx s = s" "softDrop rnd s = s" "hardDrop rnd s = Some s"
        "rotatePiece ccw s = Inr s"
  using assms
  by (simp_all add: move_def softDrop_def hardDrop_def rotatePiece_def split: option.splits)

lemma stopped_ops:
  assumes "\<not> running s" "\<not> paused s"
  shows "move dx s = s\<lparr>lastActionRef := ActMove\<rparr>"
        "softDrop rnd s = s\<lparr>lastActionRef := ActSoft\<rparr>"
        "hardDrop rnd s = Some (s\<lparr>lastActionRef := ActHard\<rparr>)"
        "rotatePiece ccw s = Inr s"
  using assms
  by (simp_all add: move_def softDrop_def hardDrop_def rotatePiece_def Let_def
               split: option.splits)

text \<open>
  Claim C4, as the code has it: while the run is paused, \<open>move\<close>, \<open>softDrop\<close>,
  \<open>hardDrop\<close> and \<open>rotate\<close> change nothing at all. While the run is over (not running)
  and not paused, \<open>rotate\<close> changes nothing, and \<open>move\<close>, \<open>softDrop\<close> and \<open>hardDrop\<close>
  leave the board, the active piece, score, lines, level and every other part of the
  state unchanged except the last-action record, which they set to \<open>move\<close>, \<open>soft\<close> and
  \<open>hard\<close>: they record the action before they test \<open>running\<close>.
\<close>

theorem paused_or_stopped_ops:
  "(paused s \<longrightarrow>
      move dx s = s \<and> softDrop rnd s = s \<and> hardDrop rnd s = Some s \<and>
      rotatePiece ccw s = Inr s) \<and>
   (\<not> running s \<and> \<not> paused s \<longrightarrow>
      rotatePiece ccw s = Inr s \<and>
      move dx s = s\<lparr>lastActionRef := ActMove\<rparr> \<and>
      softDrop rnd s = s\<lparr>lastActionRef := ActSoft\<rparr> \<and>
      hardDrop rnd s = Some (s\<lparr>lastActionRef := ActHard\<rparr>))"
  by (simp add: paused_noop stopped_ops)

theorem paused_or_stopped_ops_witness:
  "softDrop (\<lambda>i. 0) (sixthLine\<lparr>paused := True\<rparr>) = sixthLine\<lparr>paused := True\<rparr> \<and>
   rotatePiece True stopped = Inr stopped \<and>
   hardDrop (\<lambda>i. 0) stopped = Some (stopped\<lparr>lastActionRef := ActHard\<rparr>)"
proof -
  have p: "paused (sixthLine\<lparr>paused := True\<rparr>)" by simp
  have r: "\<not> running stopped \<and> \<not> paused stopped"
    by (simp add: stopped_def initialState_def)
  from paused_or_stopped_ops[of "sixthLine\<lparr>paused := True\<rparr>" 1 "\<lambda>i. 0" True] p
  have a: "softDrop (\<lambda>i. 0) (sixthLine\<lparr>paused := True\<rparr>) = sixthLine\<lparr>paused := True\<rparr>"
    by blast
  from paused_or_stopped_ops[of stopped 1 "\<lambda>i. 0" True] r
  have b: "rotatePiece True stopped = Inr stopped \<and>
           hardDrop (\<lambda>i. 0) stopped = Some (stopped\<lparr>lastActionRef := ActHard\<rparr>)"
    by blast
  from a b show ?thesis by blast
qed

text \<open>
  Claim C4 as stated makes each operation a complete no-op also while the run is over.
  After game over, with no pause, the three operations overwrite the last-action
  record.
\<close>

theorem stopped_ops_counterexample:
  "\<not> running stopped \<and> lastActionRef stopped = ActNone \<and>
   lastActionRef (move 1 stopped) = ActMove \<and> move 1 stopped \<noteq> stopped \<and>
   lastActionRef (softDrop (\<lambda>i. 0) stopped) = ActSoft \<and> softDrop (\<lambda>i. 0) stopped \<noteq> stopped \<and>
   hardDrop (\<lambda>i. 0) stopped = Some (stopped\<lparr>lastActionRef := ActHard\<rparr>) \<and>
   hardDrop (\<lambda>i. 0) stopped \<noteq> Some stopped"
proof -
  have r: "\<not> running stopped" "\<not> paused stopped" and n: "lastActionRef stopped = ActNone"
    by (simp_all add: stopped_def initialState_def)
  have m: "lastActionRef (move 1 stopped) = ActMove"
    using stopped_ops(1)[OF r, of 1] by simp
  have sd: "lastActionRef (softDrop (\<lambda>i. 0) stopped) = ActSoft"
    using stopped_ops(2)[OF r, of "\<lambda>i. 0"] by simp
  have hd: "hardDrop (\<lambda>i. 0) stopped = Some (stopped\<lparr>lastActionRef := ActHard\<rparr>)"
    using stopped_ops(3)[OF r, of "\<lambda>i. 0"] .
  have "lastActionRef (stopped\<lparr>lastActionRef := ActHard\<rparr>) \<noteq> lastActionRef stopped"
    using n by simp
  then have hne: "stopped\<lparr>lastActionRef := ActHard\<rparr> \<noteq> stopped" by metis
  have mne: "move 1 stopped \<noteq> stopped" using m n by auto
  have sne: "softDrop (\<lambda>i. 0) stopped \<noteq> stopped" using sd n by auto
  from r n m sd hd hne mne sne show ?thesis by simp
qed

section \<open>Merging a piece that does not collide\<close>

lemma no_collision_in_board:
  assumes "\<not> collides p board \<lparr>px = 0, py = 0\<rparr>"
    and "y < length (matrix p)" "x < length (matrix p ! y)" "matrix p ! y ! x \<noteq> 0"
    and "0 \<le> py (pos p) + int y"
  shows "0 \<le> px (pos p) + int x \<and> px (pos p) + int x < int COLS \<and>
         py (pos p) + int y < int ROWS \<and>
         \<not> filled (board ! nat (py (pos p) + int y) ! nat (px (pos p) + int x))"
proof -
  have "\<forall>y<length (matrix p). \<forall>x<length (matrix p ! y).
          \<not> (matrix p ! y ! x \<noteq> 0 \<and> 0 \<le> py (pos p) + int y + py \<lparr>px = 0, py = 0\<rparr> \<and>
        (px (pos p) + int x + px \<lparr>px = 0, py = 0\<rparr> < 0 \<or>
         int COLS \<le> px (pos p) + int x + px \<lparr>px = 0, py = 0\<rparr> \<or>
         int ROWS \<le> py (pos p) + int y + py \<lparr>px = 0, py = 0\<rparr> \<or>
         filled (board ! nat (py (pos p) + int y + py \<lparr>px = 0, py = 0\<rparr>)
                      ! nat (px (pos p) + int x + px \<lparr>px = 0, py = 0\<rparr>))))"
    using assms(1) unfolding collides_iff by blast
  then have "\<not> (matrix p ! y ! x \<noteq> 0 \<and> 0 \<le> py (pos p) + int y + py \<lparr>px = 0, py = 0\<rparr> \<and>
        (px (pos p) + int x + px \<lparr>px = 0, py = 0\<rparr> < 0 \<or>
         int COLS \<le> px (pos p) + int x + px \<lparr>px = 0, py = 0\<rparr> \<or>
         int ROWS \<le> py (pos p) + int y + py \<lparr>px = 0, py = 0\<rparr> \<or>
         filled (board ! nat (py (pos p) + int y + py \<lparr>px = 0, py = 0\<rparr>)
                      ! nat (px (pos p) + int x + px \<lparr>px = 0, py = 0\<rparr>))))"
    using assms(2,3) by blast
  then show ?thesis using assms(4,5) by simp
qed

section \<open>T-spin classification at a lock\<close>












section \<open>A T-spin lock without a removed row\<close>






section \<open>Perfect clear and the carried back-to-back flag\<close>

text \<open>
  In \<open>scoreClear\<close> a perfect clear of four rows always adds 2000 + 1200: when the
  perfect-clear branch reads the flag, it has been set by the four rows themselves.
\<close>

lemma scoreClear_tetris_perfect_clear:
  "scoreClear tspin 4 lvl b2b True = (fst (scoreClear tspin 4 lvl b2b False) + 3200, True)"
  by (simp add: scoreClear_def Let_def lookupOr0_def pcBonus_def)

lemma scoreClear_perfect_clear_sets_flag: "snd (scoreClear tspin cleared lvl b2b True)"
  by (simp add: scoreClear_def Let_def)

text \<open>
  Claim C2: on a perfect clear of four rows the extra 1200 points are to be added only
  if the back-to-back flag carried into the lock is true. In the position
  \<open>tetrisPerfectClear\<close> no flag is carried; the lock removes four rows and empties the
  board, and the score is 800 + 10 + 2000 + 1200 = 4010, the extra 1200 included, where
  \<open>updateScore\<close> with the carried flag false gives 2810. The flag is true afterwards.
\<close>

theorem tetris_perfect_clear_extra_without_carried_flag:
  "\<not> b2bRef tetrisPerfectClear \<and> score tetrisPerfectClear = 0 \<and>
   level tetrisPerfectClear = 1 \<and>
   collides (iUpright (- 2) 16) (boardRef tetrisPerfectClear) \<lparr>px = 0, py = 1\<rparr> \<and>
   \<not> collides (iUpright (- 2) 16) (boardRef tetrisPerfectClear) \<lparr>px = 0, py = 0\<rparr> \<and>
   lines (softDrop (\<lambda>i. 0) tetrisPerfectClear) = 4 \<and>
   isPerfectClear (boardRef (softDrop (\<lambda>i. 0) tetrisPerfectClear)) \<and>
   score (softDrop (\<lambda>i. 0) tetrisPerfectClear) = 4010 \<and>
   b2bRef (softDrop (\<lambda>i. 0) tetrisPerfectClear) \<and>
   updateScore 4 1 False False True = 2810"
proof -
  have a: "\<not> b2bRef tetrisPerfectClear" "score tetrisPerfectClear = 0"
    "level tetrisPerfectClear = 1"
    by code_simp+
  have b: "collides (iUpright (- 2) 16) (boardRef tetrisPerfectClear) \<lparr>px = 0, py = 1\<rparr>"
    by code_simp
  have c: "\<not> collides (iUpright (- 2) 16) (boardRef tetrisPerfectClear) \<lparr>px = 0, py = 0\<rparr>"
    by code_simp
  have d: "lines (softDrop (\<lambda>i. 0) tetrisPerfectClear) = 4" by code_simp
  have e: "isPerfectClear (boardRef (softDrop (\<lambda>i. 0) tetrisPerfectClear))" by code_simp
  have f: "score (softDrop (\<lambda>i. 0) tetrisPerfectClear) = 4010" by code_simp
  have g: "b2bRef (softDrop (\<lambda>i. 0) tetrisPerfectClear)" by code_simp
  have h: "updateScore 4 1 False False True = 2810" by code_simp
  from a b c d e f g h show ?thesis by blast
qed

section \<open>The challenge trigger\<close>

text \<open>
  \<open>startChallenge\<close> looks at the new level only: it fires when the level is even, with
  the type \<open>reverse\<close> at a multiple of 4 and \<open>speed\<close> otherwise, and does nothing at an
  odd level.
\<close>

lemma startChallenge_even:
  "newLevel mod 2 = 0 \<Longrightarrow>
   paused (startChallenge newLevel s) \<and>
   countdown (startChallenge newLevel s) =
     Some (if (if newLevel mod 4 = 0 then Reverse else Speed) \<in> seenChallenges s then 3 else 5) \<and>
   (\<exists>first delay. timers (startChallenge newLevel s) =
      timers s @ [CountdownInterval
                    \<lparr>ctype = (if newLevel mod 4 = 0 then Reverse else Speed),
                     duration = 30000, startTime = None\<rparr> first,
                  ChallengeReset delay])"
  by (simp add: startChallenge_def Let_def)

lemma startChallenge_odd: "newLevel mod 2 \<noteq> 0 \<Longrightarrow> startChallenge newLevel s = s"
  by (simp add: startChallenge_def)

text \<open>
  Claim C3: the countdown is to start only when the level has just increased to an
  even value; a clear that leaves the level at an even value is to start none. In the
  position \<open>sixthLine\<close> the level is 2 and no countdown runs; the lock removes one row,
  the level stays 2, and the run is paused with a new countdown of 3 and both timers
  scheduled.
\<close>

theorem challenge_restarts_at_unchanged_level:
  "level sixthLine = 2 \<and> lines sixthLine = 5 \<and> \<not> paused sixthLine \<and>
   countdown sixthLine = None \<and> timers sixthLine = [] \<and>
   collides (iFlat 0 18) (boardRef sixthLine) \<lparr>px = 0, py = 1\<rparr> \<and>
   \<not> collides (iFlat 0 18) (boardRef sixthLine) \<lparr>px = 0, py = 0\<rparr> \<and>
   lines (softDrop (\<lambda>i. 0) sixthLine) = 6 \<and>
   level (softDrop (\<lambda>i. 0) sixthLine) = 2 \<and>
   paused (softDrop (\<lambda>i. 0) sixthLine) \<and>
   countdown (softDrop (\<lambda>i. 0) sixthLine) = Some 3 \<and>
   timers (softDrop (\<lambda>i. 0) sixthLine) =
     [CountdownInterval \<lparr>ctype = Speed, duration = 30000, startTime = None\<rparr> False,
      ChallengeReset 33000]"
proof -
  have a: "level sixthLine = 2" "lines sixthLine = 5" "\<not> paused sixthLine"
    "countdown sixthLine = None" "timers sixthLine = []"
    by code_simp+
  have b: "collides (iFlat 0 18) (boardRef sixthLine) \<lparr>px = 0, py = 1\<rparr>" by code_simp
  have c: "\<not> collides (iFlat 0 18) (boardRef sixthLine) \<lparr>px = 0, py = 0\<rparr>" by code_simp
  have d: "lines (softDrop (\<lambda>i. 0) sixthLine) = 6" by code_simp
  have e: "level (softDrop (\<lambda>i. 0) sixthLine) = 2" by code_simp
  have f: "paused (softDrop (\<lambda>i. 0) sixthLine)" by code_simp
  have g: "countdown (softDrop (\<lambda>i. 0) sixthLine) = Some 3" by code_simp
  have h: "timers (softDrop (\<lambda>i. 0) sixthLine) =
     [CountdownInterval \<lparr>ctype = Speed, duration = 30000, startTime = None\<rparr> False,
      ChallengeReset 33000]"
    by code_simp
  from a b c d e f g h show ?thesis by blast
qed

end
